theory Spec2Isabelle
  imports Main "HOL-Library.AList"
begin

text \<open>
  The workflow front end: the execution controller (\<open>WorkflowExecutor.tsx\<close>), the builder
  (\<open>WorkflowBuilder.tsx\<close>) and the list view (\<open>WorkflowList\<close>). Each component is a record
  of its \<open>useState\<close> variables; a handler is a function from the state to the state it
  sets and the effects it has, cut at every \<open>await\<close>; what the server answers is an
  argument. The rendered results section is the tree of panels the component function
  returns, and then what React puts on screen for it.
\<close>

section \<open>JavaScript values\<close>

text \<open>
  The components keep server data and caught errors in variables of type \<open>any\<close>. The
  values are the JSON values plus \<open>undefined\<close>. Numbers are integers (the only numbers the
  data model has are counts); strings are sequences of 8-bit code units. An object is the
  list of its own properties; a property is read through \<open>map_of\<close>, so the order of the
  list is not observed.
\<close>

datatype jsval =
    JUndef
  | JNull
  | JBool bool
  | JNum int
  | JStr string
  | JArr "jsval list"
  | JObj "(string \<times> jsval) list"

text \<open>The exceptions of rendering and of the handlers: the \<open>TypeError\<close> the runtime raises
  when a property of \<open>null\<close> or \<open>undefined\<close> is read or when something that is not a
  function is called, and the error React raises for a child that is a plain object
  (\<open>Objects are not valid as a React child\<close>).\<close>

datatype exn = TypeError | InvalidChild

text \<open>ToBoolean, as used by \<open>!\<close>, \<open>&&\<close>, \<open>||\<close> and \<open>? :\<close>.\<close>

fun truthy :: "jsval \<Rightarrow> bool" where
  "truthy JUndef = False"
| "truthy JNull = False"
| "truthy (JBool b) = b"
| "truthy (JNum n) = (n \<noteq> 0)"
| "truthy (JStr s) = (s \<noteq> [])"
| "truthy (JArr xs) = True"
| "truthy (JObj fs) = True"

fun nullish :: "jsval \<Rightarrow> bool" where
  "nullish JUndef = True"
| "nullish JNull = True"
| "nullish v = False"

text \<open>\<open>a || b\<close> on evaluated operands: the first operand when it is truthy, else the
  second. (Every right operand of \<open>||\<close> in the components is a property read or a
  literal.)\<close>

definition js_or :: "jsval \<Rightarrow> jsval \<Rightarrow> jsval" where
  "js_or a b = (if truthy a then a else b)"

text \<open>
  \<open>v.k\<close> for a value \<open>v\<close> that is neither \<open>null\<close> nor \<open>undefined\<close>: the own property
  \<open>k\<close>, the \<open>length\<close> of an array or string, \<open>undefined\<close> otherwise. Members inherited
  from the prototypes (methods) are not data and are not looked up here; none of the
  property names the components read is one of them.
\<close>

fun own :: "jsval \<Rightarrow> string \<Rightarrow> jsval" where
  "own (JObj fs) k = (case map_of fs k of Some v \<Rightarrow> v | None \<Rightarrow> JUndef)"
| "own (JArr xs) k = (if k = ''length'' then JNum (int (length xs)) else JUndef)"
| "own (JStr s) k = (if k = ''length'' then JNum (int (length s)) else JUndef)"
| "own v k = JUndef"

text \<open>\<open>v?.k\<close>: optional chaining yields \<open>undefined\<close> where \<open>v\<close> is \<open>null\<close> or
  \<open>undefined\<close>, instead of throwing.\<close>

definition opt_member :: "jsval \<Rightarrow> string \<Rightarrow> jsval" where
  "opt_member v k = (if nullish v then JUndef else own v k)"

text \<open>
  \<open>v > 0\<close>. For \<open>undefined\<close> (NaN), \<open>null\<close> (0), booleans (0 or 1) and numbers the result
  is fixed here. A string, array or object operand is first converted to a string and that
  string is parsed as a number; this conversion is not embedded: \<open>coerced\<close> stands for the
  outcome of the comparison in that case, and every statement below holds for both values
  of it.
\<close>

fun js_gt_zero :: "bool \<Rightarrow> jsval \<Rightarrow> bool" where
  "js_gt_zero coerced JUndef = False"
| "js_gt_zero coerced JNull = False"
| "js_gt_zero coerced (JBool b) = b"
| "js_gt_zero coerced (JNum n) = (0 < n)"
| "js_gt_zero coerced v = coerced"

subsection \<open>Strings\<close>

text \<open>White space and line terminators among the code units below 256, as
  \<open>String.prototype.trim\<close> removes them: TAB, LF, VT, FF, CR, SPACE and NBSP.\<close>

definition js_space :: "char \<Rightarrow> bool" where
  "js_space c = ((of_char c :: nat) \<in> {9, 10, 11, 12, 13, 32, 160})"

definition trim :: "string \<Rightarrow> string" where
  "trim s = rev (dropWhile js_space (rev (dropWhile js_space s)))"

text \<open>The character of a decimal digit \<open>d < 10\<close>.\<close>

definition digit_char :: "nat \<Rightarrow> char" where
  "digit_char d = ''0123456789'' ! d"

text \<open>The decimal numeral of a non-negative integer, as a template literal prints an
  integer below 10^21 (an array length is below 2^32).\<close>

function string_of_nat :: "nat \<Rightarrow> string" where
  "string_of_nat n =
     (if n < 10 then [digit_char n] else string_of_nat (n div 10) @ [digit_char (n mod 10)])"
  by pat_completeness auto
termination
  by (relation "measure id") auto

text \<open>The decimal numeral of an integer, as React prints a number child.\<close>

definition string_of_int :: "int \<Rightarrow> string" where
  "string_of_int n =
     (if n < 0 then ''-'' @ string_of_nat (nat (- n)) else string_of_nat (nat n))"

section \<open>Requests, replies and the effects of a handler\<close>

text \<open>The draft sent by \<open>create\<close> and \<open>update\<close>: \<open>{ name, description, nodes }\<close>. A slot of
  the node array is \<open>None\<close> where the array has a hole.\<close>

datatype workflow = Workflow string string "jsval option list"

datatype request =
    ApiList
  | ApiCreate workflow
  | ApiUpdate string workflow
  | ApiDelete string
  | ApiExecute string string

text \<open>What a handler does to the outside: a blocking \<open>alert\<close>, a \<open>confirm\<close> dialog, a
  request of the REST client, the \<open>onSaved\<close> callback, \<open>console.error\<close>.
  \<open>AlertRuntimeText\<close> is an alert showing the message of a \<open>TypeError\<close> raised by the runtime, whose wording is the
  engine's.\<close>

datatype effect =
    Alert jsval
  | Confirm string
  | Request request
  | OnSaved
  | ConsoleError jsval
  | AlertRuntimeText

text \<open>A promise settles with a value or is rejected with a reason.\<close>

datatype reply = Resolved jsval | Rejected jsval

text \<open>
  An \<open>async\<close> handler runs until it returns (\<open>Done\<close>), until it waits for the request it
  has just issued (\<open>Await\<close>), or until an exception leaves it (\<open>Threw\<close>). Each carries the
  component state the handler has set so far and its effects in order. The continuation
  after an \<open>await\<close> is a function of its own, applied to the reply and to the state at that
  moment.
\<close>

datatype 'st outcome =
    Done 'st "effect list"
  | Await 'st "effect list"
  | Threw 'st "effect list"

fun state_of :: "'st outcome \<Rightarrow> 'st" where
  "state_of (Done s fx) = s"
| "state_of (Await s fx) = s"
| "state_of (Threw s fx) = s"

fun effects_of :: "'st outcome \<Rightarrow> effect list" where
  "effects_of (Done s fx) = fx"
| "effects_of (Await s fx) = fx"
| "effects_of (Threw s fx) = fx"

fun is_request :: "effect \<Rightarrow> bool" where
  "is_request (Request r) = True"
| "is_request e = False"

section \<open>Execution controller (WorkflowExecutor.tsx)\<close>

record executor =
  ex_workflows :: jsval
  selectedId :: string
  input :: string
  executing :: bool
  result :: jsval

text \<open>\<open>err.response?.data?.error\<close>, for an \<open>err\<close> that is neither \<open>null\<close> nor
  \<open>undefined\<close>.\<close>

definition server_error :: "jsval \<Rightarrow> jsval" where
  "server_error err = opt_member (opt_member (own err ''response'') ''data'') ''error''"

text \<open>\<open>err.response?.data?.error || err.message || "Execution failed"\<close>. Reading
  \<open>err.response\<close> throws when \<open>err\<close> itself is \<open>null\<close> or \<open>undefined\<close>.\<close>

definition execute_error_message :: "jsval \<Rightarrow> exn + jsval" where
  "execute_error_message err =
     (if nullish err then Inl TypeError
      else Inr (js_or (js_or (server_error err) (own err ''message''))
                  (JStr ''Execution failed'')))"

text \<open>\<open>handleExecute\<close> up to its \<open>await\<close>.\<close>

definition handleExecute :: "executor \<Rightarrow> executor outcome" where
  "handleExecute s =
     (if \<not> truthy (JStr (selectedId s)) \<or> \<not> truthy (JStr (trim (input s)))
      then Done s [Alert (JStr ''Please select a workflow and provide input'')]
      else Await (s\<lparr>executing := True, result := JNull\<rparr>)
             [Request (ApiExecute (selectedId s) (input s))])"

text \<open>\<open>handleExecute\<close> from its \<open>await\<close> on: the \<open>try\<close> body after the reply, the
  \<open>catch\<close> clause, and \<open>finally\<close>.\<close>

definition handleExecute_settled :: "reply \<Rightarrow> executor \<Rightarrow> executor outcome" where
  "handleExecute_settled r s =
     (case r of
        Resolved data \<Rightarrow> Done (s\<lparr>result := data, executing := False\<rparr>) []
      | Rejected err \<Rightarrow>
          (case execute_error_message err of
             Inl e \<Rightarrow> Threw (s\<lparr>executing := False\<rparr>) []
           | Inr m \<Rightarrow> Done (s\<lparr>result := JObj [(''error'', m)], executing := False\<rparr>) []))"

text \<open>The other things that set the controller's state: the two form fields, the
  \<open>workflowId\<close> property (\<open>useEffect\<close> on it) and the list preloaded for the dropdown.\<close>

definition setSelectedId :: "string \<Rightarrow> executor \<Rightarrow> executor" where
  "setSelectedId v s = s\<lparr>selectedId := v\<rparr>"

definition setInput :: "string \<Rightarrow> executor \<Rightarrow> executor" where
  "setInput v s = s\<lparr>input := v\<rparr>"

definition workflowId_effect :: "string option \<Rightarrow> executor \<Rightarrow> executor" where
  "workflowId_effect workflowId s =
     (case workflowId of
        None \<Rightarrow> s
      | Some wid \<Rightarrow> if truthy (JStr wid) then setSelectedId wid s else s)"

definition ex_loadWorkflows :: "executor \<Rightarrow> executor outcome" where
  "ex_loadWorkflows s = Await s [Request ApiList]"

definition ex_loadWorkflows_settled :: "reply \<Rightarrow> executor \<Rightarrow> executor outcome" where
  "ex_loadWorkflows_settled r s =
     (case r of
        Resolved data \<Rightarrow> Done (s\<lparr>ex_workflows := data\<rparr>) []
      | Rejected err \<Rightarrow> Done s [ConsoleError err])"

text \<open>Everything that can happen to the controller, one event at a time.\<close>

datatype exec_event =
    SelectChanged string
  | InputChanged string
  | WorkflowIdProp "string option"
  | Mounted
  | ListSettled reply
  | ExecuteClicked
  | ExecuteSettled reply

fun exec_step :: "exec_event \<Rightarrow> executor \<Rightarrow> executor outcome" where
  "exec_step (SelectChanged v) s = Done (setSelectedId v s) []"
| "exec_step (InputChanged v) s = Done (setInput v s) []"
| "exec_step (WorkflowIdProp w) s = Done (workflowId_effect w s) []"
| "exec_step Mounted s = ex_loadWorkflows s"
| "exec_step (ListSettled r) s = ex_loadWorkflows_settled r s"
| "exec_step ExecuteClicked s = handleExecute s"
| "exec_step (ExecuteSettled r) s = handleExecute_settled r s"

subsection \<open>The results section of the rendered component\<close>

text \<open>
  The element tree the component function returns for \<open>result\<close>. A child written
  \<open>{a && <div/>}\<close> is the element when \<open>a\<close> is truthy and the falsy value itself
  otherwise (\<open>Val\<close>); the children of a panel are the values placed in it.
\<close>

datatype panel =
    ErrorPanel jsval
  | FinalOutput jsval
  | ExecutionLog "jsval list"
  | Summary jsval string

datatype child = Elem panel | Val jsval

datatype results_view = Skipped jsval | Results "child list"

text \<open>\<open>result.final_state?.last_response_content\<close>\<close>

definition last_response_content :: "jsval \<Rightarrow> jsval" where
  "last_response_content res = opt_member (own res ''final_state'') ''last_response_content''"

text \<open>\<open>result.execution_log && result.execution_log.length > 0 && (... .map(...))\<close>;
  \<open>map\<close> exists on arrays only, calling it on anything else throws.\<close>

definition log_child :: "bool \<Rightarrow> jsval \<Rightarrow> exn + child" where
  "log_child coerced res =
     (let l = own res ''execution_log'' in
      if \<not> truthy l then Inr (Val l)
      else if \<not> js_gt_zero coerced (own l ''length'') then Inr (Val (JBool False))
      else (case l of JArr xs \<Rightarrow> Inr (Elem (ExecutionLog xs)) | _ \<Rightarrow> Inl TypeError))"

text \<open>\<open>result.summary && (...)\<close>\<close>

definition summary_child :: "jsval \<Rightarrow> child" where
  "summary_child res =
     (let sm = own res ''summary'' in
      if \<not> truthy sm then Val sm
      else Elem (Summary (own sm ''nodes_executed'')
                   (if truthy (own sm ''has_error'') then ''Failed'' else ''Success'')))"

definition results_section :: "bool \<Rightarrow> jsval \<Rightarrow> exn + results_view" where
  "results_section coerced res =
     (if \<not> truthy res then Inr (Skipped res)
      else if truthy (own res ''error'') then Inr (Results [Elem (ErrorPanel (own res ''error''))])
      else (case log_child coerced res of
              Inl e \<Rightarrow> Inl e
            | Inr lc \<Rightarrow>
                Inr (Results
                  [Elem (FinalOutput (js_or (last_response_content res) (JStr ''No output''))),
                   lc, summary_child res])))"

subsection \<open>What React puts on screen\<close>











section \<open>Builder (WorkflowBuilder.tsx)\<close>

text \<open>The node array can be sparse: a slot is \<open>None\<close> where it has a hole.\<close>

record builder =
  name :: string
  description :: string
  nodes :: "jsval option list"
  b_loading :: bool

text \<open>\<open>[...nodes]\<close>: the iterator reads a hole as \<open>undefined\<close>, the copy is dense.\<close>

definition spread_array :: "jsval option list \<Rightarrow> jsval option list" where
  "spread_array xs = map (\<lambda>x. Some (case x of None \<Rightarrow> JUndef | Some v \<Rightarrow> v)) xs"

text \<open>\<open>xs[i]\<close> read: \<open>undefined\<close> at a hole and outside the array.\<close>

definition array_get :: "jsval option list \<Rightarrow> int \<Rightarrow> jsval" where
  "array_get xs i =
     (if 0 \<le> i \<and> i < int (length xs)
      then (case xs ! nat i of None \<Rightarrow> JUndef | Some v \<Rightarrow> v)
      else JUndef)"

text \<open>
  \<open>xs[i] = v\<close>: an array index is an integer from 0 to 2^32 - 2. Writing past the end
  extends the array and leaves holes in between; any other \<open>i\<close> names an ordinary property
  of the array object, which is no element and which no later copy, \<open>map\<close> or \<open>filter\<close>
  sees.
\<close>

definition array_set :: "jsval option list \<Rightarrow> int \<Rightarrow> jsval \<Rightarrow> jsval option list" where
  "array_set xs i v =
     (if i < 0 \<or> 4294967295 \<le> i then xs
      else if nat i < length xs then xs[nat i := Some v]
      else xs @ replicate (nat i - length xs) None @ [Some v])"

text \<open>\<open>{...v}\<close>: the own enumerable properties of \<open>v\<close>. \<open>null\<close>, \<open>undefined\<close>, booleans
  and numbers have none; a string or array has its elements under their indices.\<close>

fun spread_props :: "jsval \<Rightarrow> (string \<times> jsval) list" where
  "spread_props (JObj fs) = fs"
| "spread_props (JStr s) = map (\<lambda>(i, c). (string_of_nat i, JStr [c])) (enumerate 0 s)"
| "spread_props (JArr xs) = map (\<lambda>(i, x). (string_of_nat i, x)) (enumerate 0 xs)"
| "spread_props v = []"

text \<open>The node literal of \<open>addNode\<close>, for \<open>nodes.length = count\<close>.\<close>

definition newNode :: "nat \<Rightarrow> jsval" where
  "newNode count =
     JObj [(''name'', JStr (''Node '' @ string_of_nat (count + 1))),
           (''prompt'', JStr ''''),
           (''routing_rules'',
              JObj [(''default_target'', JStr ''END''), (''conditional_targets'', JArr [])])]"

definition addNode :: "builder \<Rightarrow> builder" where
  "addNode s = s\<lparr>nodes := spread_array (nodes s) @ [Some (newNode (length (nodes s)))]\<rparr>"

definition updateNode :: "int \<Rightarrow> string \<Rightarrow> jsval \<Rightarrow> builder \<Rightarrow> builder" where
  "updateNode index field v s =
     (let updated = spread_array (nodes s) in
      s\<lparr>nodes := array_set updated index
                   (JObj (AList.update field v (spread_props (array_get updated index))))\<rparr>)"

text \<open>\<open>nodes.filter((_, i) => i !== index)\<close>: \<open>filter\<close> visits the slots that hold an
  element and skips the holes.\<close>

definition removeNode :: "int \<Rightarrow> builder \<Rightarrow> builder" where
  "removeNode index s =
     s\<lparr>nodes := map snd (filter (\<lambda>(i, x). x \<noteq> None \<and> int i \<noteq> index)
                             (enumerate 0 (nodes s)))\<rparr>"

text \<open>\<open>handleSave\<close> up to its \<open>await\<close>; \<open>workflowId\<close> is the component's property
  (\<open>string | null\<close>).\<close>

definition handleSave :: "string option \<Rightarrow> builder \<Rightarrow> builder outcome" where
  "handleSave workflowId s =
     (if \<not> truthy (JStr (trim (name s)))
      then Done s [Alert (JStr ''Workflow name is required'')]
      else
        (let w = Workflow (name s) (description s) (nodes s) in
         Await (s\<lparr>b_loading := True\<rparr>)
           [Request (case workflowId of
                       None \<Rightarrow> ApiCreate w
                     | Some wid \<Rightarrow> if truthy (JStr wid) then ApiUpdate wid w else ApiCreate w)]))"

text \<open>\<open>handleSave\<close> from its \<open>await\<close> on: \<open>onSaved()\<close> after a successful save, the
  alert of the \<open>catch\<close> clause after a failed one, and \<open>finally\<close>.\<close>

definition handleSave_settled :: "reply \<Rightarrow> builder \<Rightarrow> builder outcome" where
  "handleSave_settled r s =
     (case r of
        Resolved data \<Rightarrow> Done (s\<lparr>b_loading := False\<rparr>) [OnSaved]
      | Rejected err \<Rightarrow>
          if nullish err then Threw (s\<lparr>b_loading := False\<rparr>) []
          else Done (s\<lparr>b_loading := False\<rparr>)
                 [Alert (js_or (own err ''message'') (JStr ''Failed to save workflow''))])"

section \<open>List view (WorkflowList)\<close>







fun after :: "effect list \<Rightarrow> 'st outcome \<Rightarrow> 'st outcome" where
  "after pre (Done s fx) = Done s (pre @ fx)"
| "after pre (Await s fx) = Await s (pre @ fx)"
| "after pre (Threw s fx) = Threw s (pre @ fx)"




section \<open>Shared facts\<close>

subsection \<open>Strings and arrays\<close>

lemma dropWhile_all: "(\<forall>x\<in>set (dropWhile P s). P x) \<longleftrightarrow> (\<forall>x\<in>set s. P x)"
  by (induction s) auto

text \<open>The trimmed string is empty exactly when every code unit is white space.\<close>

lemma trim_empty_iff: "trim s = [] \<longleftrightarrow> (\<forall>c\<in>set s. js_space c)"
  by (simp add: trim_def dropWhile_eq_Nil_conv dropWhile_all)

lemma string_of_nat_examples:
  "string_of_nat 0 = ''0''" "string_of_nat 7 = ''7''" "string_of_nat 10 = ''10''"
  "string_of_nat 4294967295 = ''4294967295''"
  by (simp_all add: string_of_nat.simps digit_char_def)

lemma string_of_int_examples:
  "string_of_int 0 = ''0''" "string_of_int 3 = ''3''" "string_of_int 12 = ''12''"
  "string_of_int (- 5) = ''-5''"
  by (simp_all add: string_of_int_def string_of_nat.simps digit_char_def)

lemma spread_array_dense: "None \<notin> set xs \<Longrightarrow> spread_array xs = xs"
proof (induction xs)
  case Nil
  then show ?case by (simp add: spread_array_def)
next
  case (Cons x xs)
  then obtain v where "x = Some v" by (cases x) auto
  with Cons show ?case by (simp add: spread_array_def)
qed

lemma length_spread_array: "length (spread_array xs) = length xs"
  by (simp add: spread_array_def)

lemma array_get_in_range:
  "i < length xs \<Longrightarrow> array_get xs (int i) = (case xs ! i of None \<Rightarrow> JUndef | Some v \<Rightarrow> v)"
  by (simp add: array_get_def)

lemma array_get_past_end: "array_get xs (int (length xs)) = JUndef"
  by (simp add: array_get_def)

lemma array_set_in_range:
  "i < length xs \<Longrightarrow> length xs \<le> 4294967295 \<Longrightarrow> array_set xs (int i) v = xs[i := Some v]"
  by (simp add: array_set_def)

lemma array_set_past_end:
  "length xs < 4294967295 \<Longrightarrow> array_set xs (int (length xs)) v = xs @ [Some v]"
  by (simp add: array_set_def)

text \<open>Dropping the pairs with index \<open>k\<close> from an enumeration that starts at \<open>m\<close>.\<close>

lemma remove_at_aux:
  "map snd (filter (\<lambda>(j, x). j \<noteq> k) (enumerate m xs)) =
     (if k < m then xs else take (k - m) xs @ drop (Suc (k - m)) xs)"
proof (induction xs arbitrary: m)
  case Nil
  then show ?case by simp
next
  case (Cons x xs)
  show ?case
  proof (cases "k < m")
    case True
    then show ?thesis using Cons.IH [of "Suc m"] by simp
  next
    case False
    show ?thesis
    proof (cases "k = m")
      case True
      then show ?thesis using Cons.IH [of "Suc m"] by simp
    next
      case ne: False
      with False have le: "Suc m \<le> k" by arith
      then have "k - m = Suc (k - Suc m)" by arith
      then show ?thesis using Cons.IH [of "Suc m"] le ne by simp
    qed
  qed
qed

subsection \<open>Execution controller\<close>

lemma settled_rejected:
  "\<not> nullish err \<Longrightarrow>
   handleExecute_settled (Rejected err) s =
     Done (s\<lparr>result := JObj [(''error'',
                 if truthy (server_error err) then server_error err
                 else if truthy (own err ''message'') then own err ''message''
                 else JStr ''Execution failed'')],
             executing := False\<rparr>) []"
  by (simp add: handleExecute_settled_def execute_error_message_def js_or_def)


lemma log_child_sequence:
  "own res ''execution_log'' = JArr xs \<Longrightarrow>
   log_child coerced res = Inr (if xs = [] then Val (JBool False) else Elem (ExecutionLog xs))"
  by (simp add: log_child_def)









subsection \<open>Builder\<close>

lemma removeNode_dense:
  assumes "None \<notin> set (nodes s)"
  shows "nodes (removeNode (int i) s) = take i (nodes s) @ drop (Suc i) (nodes s)"
proof -
  have "filter (\<lambda>(j, x). x \<noteq> None \<and> int j \<noteq> int i) (enumerate 0 (nodes s)) =
        filter (\<lambda>(j, x). j \<noteq> i) (enumerate 0 (nodes s))"
  proof (intro filter_cong refl)
    fix p
    assume "p \<in> set (enumerate 0 (nodes s))"
    then have "snd p \<in> set (nodes s)"
      by (metis in_set_enumerate_eq nth_mem diff_zero add_0_right)
    with assms have "snd p \<noteq> None" by (cases "snd p") simp_all
    then show "(case p of (j, x) \<Rightarrow> x \<noteq> None \<and> int j \<noteq> int i) =
               (case p of (j, x) \<Rightarrow> j \<noteq> i)"
      by (cases p) simp
  qed
  then show ?thesis
    using remove_at_aux [of i 0 "nodes s"] by (simp add: removeNode_def)
qed

lemma addNode_dense:
  "None \<notin> set (nodes s) \<Longrightarrow> nodes (addNode s) = nodes s @ [Some (newNode (length (nodes s)))]"
  by (simp add: addNode_def spread_array_dense)

lemma addNode_iterated:
  "None \<notin> set (nodes s) \<Longrightarrow>
   nodes ((addNode ^^ n) s) = nodes s @ map (\<lambda>i. Some (newNode (length (nodes s) + i))) [0..<n]"
proof (induction n)
  case 0
  then show ?case by simp
next
  case (Suc n)
  then have eq: "nodes ((addNode ^^ n) s) =
      nodes s @ map (\<lambda>i. Some (newNode (length (nodes s) + i))) [0..<n]"
    by simp
  with Suc.prems have "None \<notin> set (nodes ((addNode ^^ n) s))" by auto
  then show ?case by (simp add: addNode_dense eq)
qed

lemma updateNode_in_range:
  assumes "None \<notin> set (nodes s)" "i < length (nodes s)" "length (nodes s) \<le> 4294967295"
    "nodes s ! i = Some (JObj fs)"
  shows "nodes (updateNode (int i) f v s) = (nodes s)[i := Some (JObj (AList.update f v fs))]"
  using assms
  by (simp add: updateNode_def spread_array_dense array_get_in_range array_set_in_range)

lemma updateNode_other_fields:
  "name (updateNode i f v s) = name s \<and> description (updateNode i f v s) = description s
   \<and> b_loading (updateNode i f v s) = b_loading s"
  by (simp add: updateNode_def Let_def)

text \<open>Holes come only from \<open>updateNode\<close> with an index beyond the length: the arrays
  that \<open>addNode\<close>, \<open>removeNode\<close> and \<open>updateNode\<close> with an index up to the length leave
  have none.\<close>

lemma spread_array_no_holes: "None \<notin> set (spread_array xs)"
  by (auto simp: spread_array_def)

lemma addNode_no_holes: "None \<notin> set (nodes (addNode s))"
  by (simp add: addNode_def spread_array_no_holes)

lemma removeNode_no_holes: "None \<notin> set (nodes (removeNode i s))"
  by (auto simp: removeNode_def)

lemma updateNode_no_holes:
  assumes "i \<le> int (length (nodes s))"
  shows "None \<notin> set (nodes (updateNode i f v s))"
proof -
  let ?u = "spread_array (nodes s)"
  have d: "None \<notin> set ?u" by (rule spread_array_no_holes)
  have "None \<notin> set (array_set ?u i w)" for w
  proof (cases "i < 0 \<or> 4294967295 \<le> i")
    case True
    with d show ?thesis by (simp add: array_set_def)
  next
    case False
    show ?thesis
    proof (cases "nat i < length ?u")
      case True
      with False d show ?thesis
        by (auto simp: array_set_def dest: set_update_subset_insert [THEN subsetD])
    next
      case ge: False
      with assms False have "nat i = length ?u"
        by (simp add: length_spread_array)
      with False ge d show ?thesis by (simp add: array_set_def)
    qed
  qed
  then show ?thesis by (simp add: updateNode_def Let_def)
qed

subsection \<open>List view\<close>









section \<open>Execution controller: what is stored and what is rendered\<close>









text \<open>
  C4. Validation comes before any request. \<open>handleSave\<close> with a name that is empty
  after trimming alerts \<open>Workflow name is required\<close>, issues no request and leaves the
  whole draft as it is. \<open>handleExecute\<close> with no workflow selected, or with an input that
  is empty or all white space, alerts its validation message, issues no request and
  leaves the state, and so the held result, as it is. Conversely each handler issues a
  request exactly when its validation passes.
\<close>

theorem validation_before_network:
  "(trim (name b) = [] \<longrightarrow>
      handleSave workflowId b = Done b [Alert (JStr ''Workflow name is required'')])
   \<and> (selectedId s = [] \<or> (\<forall>c\<in>set (input s). js_space c) \<longrightarrow>
      handleExecute s = Done s [Alert (JStr ''Please select a workflow and provide input'')])
   \<and> (list_ex is_request (effects_of (handleSave workflowId b)) \<longleftrightarrow> trim (name b) \<noteq> [])
   \<and> (list_ex is_request (effects_of (handleExecute s)) \<longleftrightarrow>
        selectedId s \<noteq> [] \<and> trim (input s) \<noteq> [])"
  by (simp add: handleSave_def handleExecute_def trim_empty_iff Let_def)

theorem validation_before_network_witness:
  "trim (name \<lparr>name = ''  '', description = ''d'', nodes = [Some (newNode 0)],
                b_loading = False\<rparr>) = []
   \<and> handleSave None \<lparr>name = ''  '', description = ''d'', nodes = [Some (newNode 0)],
                       b_loading = False\<rparr>
       = Done \<lparr>name = ''  '', description = ''d'', nodes = [Some (newNode 0)],
               b_loading = False\<rparr>
           [Alert (JStr ''Workflow name is required'')]
   \<and> handleExecute \<lparr>ex_workflows = JArr [], selectedId = ''w1'', input = '' '', executing = False,
         result = JNull\<rparr>
       = Done \<lparr>ex_workflows = JArr [], selectedId = ''w1'', input = '' '', executing = False,
         result = JNull\<rparr> [Alert (JStr ''Please select a workflow and provide input'')]
   \<and> handleExecute \<lparr>ex_workflows = JArr [], selectedId = '''', input = ''run'', executing = False,
         result = JNull\<rparr>
       = Done \<lparr>ex_workflows = JArr [], selectedId = '''', input = ''run'', executing = False,
         result = JNull\<rparr> [Alert (JStr ''Please select a workflow and provide input'')]"
proof -
  let ?b = "\<lparr>name = ''  '', description = ''d'', nodes = [Some (newNode 0)],
             b_loading = False\<rparr>"
  let ?s = "\<lparr>ex_workflows = JArr [], selectedId = ''w1'', input = '' '', executing = False,
         result = JNull\<rparr>"
  let ?t = "\<lparr>ex_workflows = JArr [], selectedId = '''', input = ''run'', executing = False,
         result = JNull\<rparr>"
  have 1: "trim (name ?b) = []" by (simp add: trim_def js_space_def)
  have 2: "selectedId ?s = [] \<or> (\<forall>c\<in>set (input ?s). js_space c)" by (simp add: js_space_def)
  have 3: "selectedId ?t = [] \<or> (\<forall>c\<in>set (input ?t). js_space c)" by simp
  show ?thesis
    using 1 2 3 validation_before_network [of ?b None ?s] validation_before_network [of ?b None ?t]
    by simp
qed

text \<open>
  Against C5 as stated: the next execute call does not replace the held result in one
  step. Up to its \<open>await\<close> the handler has already set the result to \<open>null\<close>; while the
  request is in flight the controller holds no result and the results section is not
  rendered.
\<close>

theorem result_cleared_counterexample:
  "handleExecute \<lparr>ex_workflows = JArr [], selectedId = ''w1'', input = ''again'', executing = False,
        result = JObj [(''error'', JStr ''Execution failed'')]\<rparr>
     = Await \<lparr>ex_workflows = JArr [], selectedId = ''w1'', input = ''again'', executing = True,
        result = JNull\<rparr> [Request (ApiExecute ''w1'' ''again'')]
   \<and> results_section False JNull = Inr (Skipped JNull)
   \<and> results_section True JNull = Inr (Skipped JNull)"
  by (simp add: handleExecute_def trim_def js_space_def results_section_def)

text \<open>
  C5, amended. When an execute request settles the controller holds its result: the
  response as it came on success, the synthetic \<open>{ error: message }\<close> on failure (for an
  error value that is not \<open>null\<close> or \<open>undefined\<close>). The held result stays as it is through
  every other event of the controller, an execute click that fails validation included.
  The next execute click that passes validation replaces it in two steps: it sets the
  result to \<open>null\<close> when it issues the request, so that nothing is held while the request
  is in flight, and the new result is stored when the request settles.
\<close>

theorem result_held_between_runs:
  "result (state_of (exec_step (ExecuteSettled (Resolved d)) s)) = d
   \<and> (\<not> nullish err \<longrightarrow>
        result (state_of (exec_step (ExecuteSettled (Rejected err)) s)) =
          JObj [(''error'', if truthy (server_error err) then server_error err
                            else if truthy (own err ''message'') then own err ''message''
                            else JStr ''Execution failed'')])
   \<and> (ev \<noteq> ExecuteClicked \<and> (\<forall>r. ev \<noteq> ExecuteSettled r) \<longrightarrow>
        result (state_of (exec_step ev s)) = result s)
   \<and> (selectedId s = [] \<or> trim (input s) = [] \<longrightarrow>
        exec_step ExecuteClicked s =
          Done s [Alert (JStr ''Please select a workflow and provide input'')])
   \<and> (selectedId s \<noteq> [] \<and> trim (input s) \<noteq> [] \<longrightarrow>
        exec_step ExecuteClicked s =
          Await (s\<lparr>executing := True, result := JNull\<rparr>)
            [Request (ApiExecute (selectedId s) (input s))])"
proof -
  have other: "result (state_of (exec_step ev s)) = result s"
    if "ev \<noteq> ExecuteClicked" "\<forall>r. ev \<noteq> ExecuteSettled r"
    using that
    by (cases ev)
       (auto simp: setSelectedId_def setInput_def workflowId_effect_def ex_loadWorkflows_def
          ex_loadWorkflows_settled_def split: option.splits reply.splits)
  show ?thesis
    using other
    by (simp add: settled_rejected handleExecute_def) (simp add: handleExecute_settled_def)
qed

text \<open>A failed run, an edit of the input, and the next run.\<close>

theorem result_held_between_runs_witness:
  "result (state_of (exec_step (ExecuteSettled (Rejected (JObj [(''message'', JStr ''Network Error'')])))
       \<lparr>ex_workflows = JArr [], selectedId = ''w1'', input = ''go'', executing = True,
        result = JNull\<rparr>)) = JObj [(''error'', JStr ''Network Error'')]
   \<and> result (state_of (exec_step (InputChanged ''again'')
       \<lparr>ex_workflows = JArr [], selectedId = ''w1'', input = ''go'', executing = False,
        result = JObj [(''error'', JStr ''Network Error'')]\<rparr>))
      = JObj [(''error'', JStr ''Network Error'')]
   \<and> exec_step ExecuteClicked
       \<lparr>ex_workflows = JArr [], selectedId = ''w1'', input = ''again'', executing = False,
        result = JObj [(''error'', JStr ''Network Error'')]\<rparr>
     = Await \<lparr>ex_workflows = JArr [], selectedId = ''w1'', input = ''again'', executing = True,
        result = JNull\<rparr> [Request (ApiExecute ''w1'' ''again'')]"
proof -
  let ?err = "JObj [(''message'', JStr ''Network Error'')]"
  let ?s0 = "\<lparr>ex_workflows = JArr [], selectedId = ''w1'', input = ''go'', executing = True,
        result = JNull\<rparr>"
  let ?s1 = "\<lparr>ex_workflows = JArr [], selectedId = ''w1'', input = ''go'', executing = False,
        result = JObj [(''error'', JStr ''Network Error'')]\<rparr>"
  let ?s2 = "\<lparr>ex_workflows = JArr [], selectedId = ''w1'', input = ''again'', executing = False,
        result = JObj [(''error'', JStr ''Network Error'')]\<rparr>"
  have 1: "\<not> nullish ?err" by simp
  have 2: "InputChanged ''again'' \<noteq> ExecuteClicked
           \<and> (\<forall>r. InputChanged ''again'' \<noteq> ExecuteSettled r)"
    by simp
  have 3: "selectedId ?s2 \<noteq> [] \<and> trim (input ?s2) \<noteq> []" by (simp add: trim_def js_space_def)
  show ?thesis
    using 1 result_held_between_runs [of JNull ?s0 ?err "InputChanged ''go''"]
      2 result_held_between_runs [of JNull ?s1 ?err "InputChanged ''again''"]
      3 result_held_between_runs [of JNull ?s2 ?err "InputChanged ''again''"]
    by (simp add: server_error_def opt_member_def)
qed

section \<open>Builder: the node sequence\<close>

text \<open>
  C6. From a draft with no nodes, \<open>n\<close> calls of \<open>addNode\<close> give a node sequence of
  length \<open>n\<close> whose node at position \<open>i\<close> (counted from 1) is the literal with name
  \<open>Node i\<close>, empty prompt, default target \<open>END\<close> and no conditional targets. Each call on
  a sequence without holes appends one node and leaves the nodes before it as they are.
  A call works on the state the call before it has left: the component is rendered again
  between two clicks.
\<close>

theorem addNode_n_times:
  assumes "nodes s = []"
  shows "nodes ((addNode ^^ n) s) = map (\<lambda>i. Some (newNode i)) [0..<n]
     \<and> length (nodes ((addNode ^^ n) s)) = n
     \<and> (\<forall>i<n. own (newNode i) ''name'' = JStr (''Node '' @ string_of_nat (i + 1))
            \<and> own (newNode i) ''prompt'' = JStr ''''
            \<and> own (own (newNode i) ''routing_rules'') ''default_target'' = JStr ''END''
            \<and> own (own (newNode i) ''routing_rules'') ''conditional_targets'' = JArr [])
     \<and> (\<forall>t. None \<notin> set (nodes t) \<longrightarrow>
            nodes (addNode t) = nodes t @ [Some (newNode (length (nodes t)))])"
  using assms addNode_iterated [of s n] by (simp add: addNode_dense newNode_def)

theorem addNode_n_times_witness:
  "nodes \<lparr>name = '''', description = '''', nodes = [], b_loading = False\<rparr> = []
   \<and> map (\<lambda>v. own (case v of Some x \<Rightarrow> x | None \<Rightarrow> JUndef) ''name'')
        (nodes ((addNode ^^ 3) \<lparr>name = '''', description = '''', nodes = [], b_loading = False\<rparr>))
     = [JStr ''Node 1'', JStr ''Node 2'', JStr ''Node 3'']"
proof -
  let ?s = "\<lparr>name = '''', description = '''', nodes = [], b_loading = False\<rparr>"
  have 1: "nodes ?s = []" by simp
  have 2: "[0..<3] = [0, 1, 2]" by (simp add: upt_rec)
  show ?thesis
    using 1 addNode_n_times [OF 1, of 3] 2
    by (simp add: newNode_def string_of_nat.simps digit_char_def)
qed

text \<open>
  C7. On a node sequence without holes and for a position \<open>i\<close> inside it,
  \<open>removeNode(i)\<close> gives a sequence one shorter in which every node before \<open>i\<close> is where
  it was and every node after \<open>i\<close> has moved left by one position; a node is moved as the
  value it is, so all its fields are kept. The name and the description of the draft are
  not touched.
\<close>

theorem removeNode_shifts_left:
  assumes "None \<notin> set (nodes s)" and "i < length (nodes s)"
  shows "length (nodes (removeNode (int i) s)) = length (nodes s) - 1
     \<and> (\<forall>j<i. nodes (removeNode (int i) s) ! j = nodes s ! j)
     \<and> (\<forall>j. i \<le> j \<and> j < length (nodes s) - 1 \<longrightarrow>
            nodes (removeNode (int i) s) ! j = nodes s ! (j + 1))
     \<and> name (removeNode (int i) s) = name s
     \<and> description (removeNode (int i) s) = description s"
proof -
  note eq = removeNode_dense [OF assms(1), of i]
  have len: "length (nodes (removeNode (int i) s)) = length (nodes s) - 1"
    using assms(2) by (simp add: eq)
  have before: "nodes (removeNode (int i) s) ! j = nodes s ! j" if "j < i" for j
    using that assms(2) by (simp add: eq nth_append)
  have after: "nodes (removeNode (int i) s) ! j = nodes s ! (j + 1)"
    if "i \<le> j" "j < length (nodes s) - 1" for j
    using that assms(2) by (simp add: eq nth_append min_def)
  have other: "name (removeNode (int i) s) = name s"
      "description (removeNode (int i) s) = description s"
    by (simp_all add: removeNode_def)
  from len before after other show ?thesis by simp
qed

theorem removeNode_shifts_left_witness:
  "None \<notin> set (nodes \<lparr>name = ''w'', description = '''',
        nodes = [Some (JObj [(''name'', JStr ''A'')]), Some (JObj [(''name'', JStr ''B'')]),
                 Some (JObj [(''name'', JStr ''C'')])], b_loading = False\<rparr>)
   \<and> nodes (removeNode 1 \<lparr>name = ''w'', description = '''',
        nodes = [Some (JObj [(''name'', JStr ''A'')]), Some (JObj [(''name'', JStr ''B'')]),
                 Some (JObj [(''name'', JStr ''C'')])], b_loading = False\<rparr>) ! 0
      = Some (JObj [(''name'', JStr ''A'')])
   \<and> nodes (removeNode 1 \<lparr>name = ''w'', description = '''',
        nodes = [Some (JObj [(''name'', JStr ''A'')]), Some (JObj [(''name'', JStr ''B'')]),
                 Some (JObj [(''name'', JStr ''C'')])], b_loading = False\<rparr>) ! 1
      = Some (JObj [(''name'', JStr ''C'')])
   \<and> length (nodes (removeNode 1 \<lparr>name = ''w'', description = '''',
        nodes = [Some (JObj [(''name'', JStr ''A'')]), Some (JObj [(''name'', JStr ''B'')]),
                 Some (JObj [(''name'', JStr ''C'')])], b_loading = False\<rparr>)) = 2"
proof -
  let ?s = "\<lparr>name = ''w'', description = '''',
        nodes = [Some (JObj [(''name'', JStr ''A'')]), Some (JObj [(''name'', JStr ''B'')]),
                 Some (JObj [(''name'', JStr ''C'')])], b_loading = False\<rparr>"
  have 1: "None \<notin> set (nodes ?s)" by simp
  have 2: "1 < length (nodes ?s)" by simp
  have 3: "(0::nat) < 1" and 4: "(1::nat) \<le> 1 \<and> 1 < length (nodes ?s) - 1" by simp_all
  show ?thesis
    using removeNode_shifts_left [OF 1 2] 1 3 4 by simp
qed

text \<open>
  C8. On a node sequence without holes (of at most 2^32 - 1 slots, as every array),
  for a position \<open>i\<close> inside it that holds a node object, and for every field \<open>f\<close> and
  value \<open>v\<close>: \<open>updateNode(i, f, v)\<close> keeps the length, keeps every other node, and puts
  at \<open>i\<close> a node whose field \<open>f\<close> is \<open>v\<close> and whose other fields are those of the old
  node. The name and the description of the draft are not touched.
\<close>

theorem updateNode_frame:
  assumes "None \<notin> set (nodes s)" and "i < length (nodes s)"
    and "length (nodes s) \<le> 4294967295" and "nodes s ! i = Some (JObj fs)"
  shows "length (nodes (updateNode (int i) f v s)) = length (nodes s)
     \<and> (\<forall>j<length (nodes s). j \<noteq> i \<longrightarrow> nodes (updateNode (int i) f v s) ! j = nodes s ! j)
     \<and> (\<exists>fs'. nodes (updateNode (int i) f v s) ! i = Some (JObj fs')
               \<and> map_of fs' = (map_of fs)(f \<mapsto> v))
     \<and> own (case nodes (updateNode (int i) f v s) ! i of Some n \<Rightarrow> n | None \<Rightarrow> JUndef) f = v
     \<and> (\<forall>g. g \<noteq> f \<longrightarrow>
          own (case nodes (updateNode (int i) f v s) ! i of Some n \<Rightarrow> n | None \<Rightarrow> JUndef) g
            = own (JObj fs) g)
     \<and> name (updateNode (int i) f v s) = name s
     \<and> description (updateNode (int i) f v s) = description s"
  using assms(2)
  by (simp add: updateNode_in_range [OF assms] updateNode_other_fields AList.update_conv')

theorem updateNode_frame_witness:
  "None \<notin> set (nodes \<lparr>name = ''w'', description = '''',
       nodes = [Some (JObj [(''name'', JStr ''A''), (''prompt'', JStr '''')]),
                Some (JObj [(''name'', JStr ''B''), (''prompt'', JStr '''')])],
       b_loading = False\<rparr>)
   \<and> length (nodes (updateNode 1 ''prompt'' (JStr ''Summarise'')
       \<lparr>name = ''w'', description = '''',
        nodes = [Some (JObj [(''name'', JStr ''A''), (''prompt'', JStr '''')]),
                 Some (JObj [(''name'', JStr ''B''), (''prompt'', JStr '''')])],
        b_loading = False\<rparr>)) = 2
   \<and> nodes (updateNode 1 ''prompt'' (JStr ''Summarise'')
       \<lparr>name = ''w'', description = '''',
        nodes = [Some (JObj [(''name'', JStr ''A''), (''prompt'', JStr '''')]),
                 Some (JObj [(''name'', JStr ''B''), (''prompt'', JStr '''')])],
        b_loading = False\<rparr>) ! 0 = Some (JObj [(''name'', JStr ''A''), (''prompt'', JStr '''')])
   \<and> own (case nodes (updateNode 1 ''prompt'' (JStr ''Summarise'')
       \<lparr>name = ''w'', description = '''',
        nodes = [Some (JObj [(''name'', JStr ''A''), (''prompt'', JStr '''')]),
                 Some (JObj [(''name'', JStr ''B''), (''prompt'', JStr '''')])],
        b_loading = False\<rparr>) ! 1 of Some n \<Rightarrow> n | None \<Rightarrow> JUndef) ''prompt''
      = JStr ''Summarise''
   \<and> own (case nodes (updateNode 1 ''prompt'' (JStr ''Summarise'')
       \<lparr>name = ''w'', description = '''',
        nodes = [Some (JObj [(''name'', JStr ''A''), (''prompt'', JStr '''')]),
                 Some (JObj [(''name'', JStr ''B''), (''prompt'', JStr '''')])],
        b_loading = False\<rparr>) ! 1 of Some n \<Rightarrow> n | None \<Rightarrow> JUndef) ''name'' = JStr ''B''"
proof -
  let ?fs = "[(''name'', JStr ''B''), (''prompt'', JStr '''')]"
  let ?s = "\<lparr>name = ''w'', description = '''',
       nodes = [Some (JObj [(''name'', JStr ''A''), (''prompt'', JStr '''')]), Some (JObj ?fs)],
       b_loading = False\<rparr>"
  have 1: "None \<notin> set (nodes ?s)" by simp
  have 2: "1 < length (nodes ?s)" by simp
  have 3: "length (nodes ?s) \<le> 4294967295" by simp
  have 4: "nodes ?s ! 1 = Some (JObj ?fs)" by simp
  have 5: "(0::nat) < length (nodes ?s) \<and> (0::nat) \<noteq> 1" and 6: "''name'' \<noteq> ''prompt''"
    by simp_all
  show ?thesis
    using updateNode_frame [OF 1 2 3 4, of "''prompt''" "JStr ''Summarise''"] 1 5 6
    by simp
qed

text \<open>
  C10. \<open>updateNode\<close> has a result for every index. With the index one past the end of a
  node sequence (shorter than the longest array) it does not leave the sequence as it
  was: it appends the object \<open>{ f: v }\<close>, whose only field is \<open>f\<close>, since the missing
  element spreads to nothing. The sequence is one longer, the nodes before are kept (a
  sequence without holes is kept as it is), and the new node has none of the other node
  fields.
\<close>

theorem updateNode_one_past_end:
  assumes "length (nodes s) < 4294967295"
  shows "nodes (updateNode (int (length (nodes s))) f v s) =
           spread_array (nodes s) @ [Some (JObj [(f, v)])]
     \<and> length (nodes (updateNode (int (length (nodes s))) f v s)) = length (nodes s) + 1
     \<and> nodes (updateNode (int (length (nodes s))) f v s) \<noteq> nodes s
     \<and> map_of [(f, v)] f = Some v
     \<and> (\<forall>g. g \<noteq> f \<longrightarrow> map_of [(f, v)] g = None \<and> own (JObj [(f, v)]) g = JUndef)
     \<and> (None \<notin> set (nodes s) \<longrightarrow>
          nodes (updateNode (int (length (nodes s))) f v s) = nodes s @ [Some (JObj [(f, v)])])"
proof -
  have eq: "nodes (updateNode (int (length (nodes s))) f v s) =
           spread_array (nodes s) @ [Some (JObj [(f, v)])]"
    using assms array_get_past_end [of "spread_array (nodes s)"]
      array_set_past_end [of "spread_array (nodes s)"]
    by (simp add: updateNode_def length_spread_array Let_def)
  then have "length (nodes (updateNode (int (length (nodes s))) f v s)) = length (nodes s) + 1"
    by (simp add: length_spread_array)
  moreover from this have "nodes (updateNode (int (length (nodes s))) f v s) \<noteq> nodes s"
    by auto
  ultimately show ?thesis
    using eq by (simp add: spread_array_dense)
qed

theorem updateNode_one_past_end_witness:
  "length (nodes \<lparr>name = ''w'', description = '''', nodes = [Some (newNode 0)],
             b_loading = False\<rparr>) < 4294967295
   \<and> nodes (updateNode 1 ''name'' (JStr ''x'')
        \<lparr>name = ''w'', description = '''', nodes = [Some (newNode 0)], b_loading = False\<rparr>)
     = [Some (newNode 0), Some (JObj [(''name'', JStr ''x'')])]
   \<and> own (JObj [(''name'', JStr ''x'')]) ''prompt'' = JUndef
   \<and> own (JObj [(''name'', JStr ''x'')]) ''routing_rules'' = JUndef"
proof -
  let ?s = "\<lparr>name = ''w'', description = '''', nodes = [Some (newNode 0)], b_loading = False\<rparr>"
  have 1: "length (nodes ?s) < 4294967295" by simp
  have 2: "None \<notin> set (nodes ?s)" by simp
  show ?thesis
    using updateNode_one_past_end [OF 1, of "''name''" "JStr ''x''"] 1 2
    by (simp add: spread_array_def)
qed

section \<open>List view: delete\<close>




end
